theory Spec2Isabelle
  imports Main "HOL-Library.Word"
begin

unbundle bit_operations_syntax

section \<open>Outcomes of a call\<close>

text \<open>
  A call of one of the two functions of \<^verbatim>\<open>apply_multiplier.cc\<close> either returns a 32-bit
  value, or ends the process in a failed \<^verbatim>\<open>RUY_CHECK\<close>, or runs into an operation whose
  behaviour C++ leaves undefined (a shift count outside the width of the operand, a signed
  overflow, a floating-point value that the target integer type cannot hold).  Each of the
  three is a value of the model.
\<close>

datatype failure = Fatal | Undefined

type_synonym 'a outcome = "failure + 'a"

text \<open>Sequencing: the first failure ends the computation.\<close>

definition and_then :: "'a outcome \<Rightarrow> ('a \<Rightarrow> 'b outcome) \<Rightarrow> 'b outcome" where
  "and_then r f = (case r of Inl e \<Rightarrow> Inl e | Inr v \<Rightarrow> f v)"

section \<open>Signed machine arithmetic\<close>

text \<open>
  The values of \<^verbatim>\<open>std::int64_t\<close> and \<^verbatim>\<open>signed long long\<close> variables are mathematical
  integers in the model; every arithmetic result is checked against the range of its type,
  and a result out of range is undefined behaviour, as it is for signed types in C++.
\<close>

definition representable :: "nat \<Rightarrow> int \<Rightarrow> bool" where
  "representable w v \<longleftrightarrow> - (2 ^ (w - 1)) \<le> v \<and> v < 2 ^ (w - 1)"

definition signed_op :: "nat \<Rightarrow> int \<Rightarrow> int outcome" where
  "signed_op w v = (if representable w v then Inr v else Inl Undefined)"

text \<open>
  \<^verbatim>\<open>a << n\<close> on a signed operand of width \<open>w\<close>: undefined for a count that is negative or
  not below \<open>w\<close>, for a negative \<open>a\<close>, and when \<open>a * 2 ^ n\<close> does not fit.
\<close>

definition shl :: "nat \<Rightarrow> int \<Rightarrow> int \<Rightarrow> int outcome" where
  "shl w a n =
     (if n < 0 \<or> int w \<le> n \<or> a < 0 then Inl Undefined
      else signed_op w (a * 2 ^ nat n))"

text \<open>
  \<^verbatim>\<open>a >> n\<close> on a signed operand of width \<open>w\<close>: undefined for a count that is negative or
  not below \<open>w\<close>; otherwise the arithmetic shift, which rounds towards minus infinity
  (what every compiler the library supports does for a negative \<open>a\<close>, and what C++20
  prescribes).
\<close>

definition shr :: "nat \<Rightarrow> int \<Rightarrow> int \<Rightarrow> int outcome" where
  "shr w a n =
     (if n < 0 \<or> int w \<le> n then Inl Undefined
      else Inr (a div 2 ^ nat n))"

section \<open>The single rounding shift: \<^verbatim>\<open>TFMultiplyByQuantizedMultiplier\<close>\<close>

text \<open>
  Modelled from the spec: the macros \<^verbatim>\<open>RUY_CHECK_GE\<close>, \<^verbatim>\<open>RUY_CHECK_LE\<close>,
  \<^verbatim>\<open>RUY_DCHECK_GE\<close> and \<^verbatim>\<open>RUY_DCHECK_LE\<close> come from a header that is not part of the
  source at hand.  A failed \<^verbatim>\<open>RUY_CHECK\<close> is fatal and ends the process; the
  \<^verbatim>\<open>RUY_DCHECK\<close>s on the result are ``checked only in debug builds, not enforced at
  release time''.  The build kind is the parameter \<open>dchecks\<close>: \<open>True\<close> for a debug build.
\<close>

definition RUY_CHECK :: "bool \<Rightarrow> unit outcome" where
  "RUY_CHECK cond = (if cond then Inr () else Inl Fatal)"

definition RUY_DCHECK :: "bool \<Rightarrow> bool \<Rightarrow> unit outcome" where
  "RUY_DCHECK dchecks cond = (if dchecks then RUY_CHECK cond else Inr ())"

text \<open>
  The arguments are \<^verbatim>\<open>std::int32_t x\<close>, \<^verbatim>\<open>std::int32_t quantized_multiplier\<close> and
  \<^verbatim>\<open>int shift\<close>, all 32-bit words read as signed.  The returned value is the
  \<^verbatim>\<open>static_cast<std::int32_t>\<close> of the 64-bit result, which keeps its low 32 bits.
\<close>

definition TFMultiplyByQuantizedMultiplier ::
  "bool \<Rightarrow> 32 word \<Rightarrow> 32 word \<Rightarrow> 32 word \<Rightarrow> 32 word outcome" where
  "TFMultiplyByQuantizedMultiplier dchecks x quantized_multiplier shift =
     and_then (RUY_CHECK (- 31 \<le> sint shift)) (\<lambda>_.
     and_then (RUY_CHECK (sint shift \<le> 7)) (\<lambda>_.
     and_then (signed_op 32 (31 - sint shift)) (\<lambda>total_shift.
     let x_64 = sint x;
         quantized_multiplier_64 = sint quantized_multiplier
     in
     and_then (signed_op 32 (total_shift - 1)) (\<lambda>count.
     and_then (shl 64 1 count) (\<lambda>round.
     and_then (signed_op 64 (x_64 * quantized_multiplier_64)) (\<lambda>product.
     and_then (signed_op 64 (product + round)) (\<lambda>result.
     and_then (shr 64 result total_shift) (\<lambda>result.
     and_then (RUY_DCHECK dchecks (- (2 ^ 31) \<le> result)) (\<lambda>_.
     and_then (RUY_DCHECK dchecks (result \<le> 2 ^ 31 - 1)) (\<lambda>_.
       Inr (word_of_int result)))))))))))"

section \<open>The round-to-even case of \<^verbatim>\<open>MultiplyByQuantizedMultiplier\<close>\<close>

text \<open>
  \<^verbatim>\<open>#define LLSHL1(x) (1LL<<(x))\<close>
\<close>

definition LLSHL1 :: "int \<Rightarrow> int outcome" where
  "LLSHL1 x = shl 64 1 x"

text \<open>
  \<^verbatim>\<open>#define LL_ROUND(X,shift) ((X + ((X >> (shift)) & 1) + (LLSHL1(shift-1)-1)) >> (shift))\<close>

  The macro is expanded once, with a \<^verbatim>\<open>signed long long\<close> for \<open>X\<close> and the expression
  \<^verbatim>\<open>unsigned(shift)\<close> for \<open>shift\<close>, so \<^verbatim>\<open>shift-1\<close> is computed in 32-bit unsigned
  arithmetic and wraps to \<open>2^32 - 1\<close> at zero.  The second argument of the model is the
  value of \<^verbatim>\<open>unsigned(shift)\<close>.
\<close>

definition LL_ROUND :: "int \<Rightarrow> int \<Rightarrow> int outcome" where
  "LL_ROUND X shift =
     and_then (shr 64 X shift) (\<lambda>shifted.
     and_then (LLSHL1 ((shift - 1) mod 2 ^ 32)) (\<lambda>one_shl.
     and_then (signed_op 64 (one_shl - 1)) (\<lambda>bias.
     and_then (signed_op 64 (X + (shifted AND 1))) (\<lambda>sum.
     and_then (signed_op 64 (sum + bias)) (\<lambda>sum.
       shr 64 sum shift)))))"

text \<open>
  \<^verbatim>\<open>double(v)\<close> for a 64-bit integer \<open>v\<close>: the nearest value with a 53-bit significand,
  ties to the even significand (IEEE 754 binary64 in the default rounding mode).  Such a
  value is itself an integer, and the model keeps it as one.
\<close>

fun bit_length :: "nat \<Rightarrow> nat" where
  "bit_length n = (if n = 0 then 0 else Suc (bit_length (n div 2)))"

declare bit_length.simps [simp del]

definition double_of_int64 :: "int \<Rightarrow> int" where
  "double_of_int64 v =
     (let m = nat \<bar>v\<bar>;
          e = bit_length m - 53
      in if e = 0 then v
         else
           let q = m div 2 ^ e;
               r = m mod 2 ^ e;
               q' = (if 2 ^ e < 2 * r \<or> (2 * r = 2 ^ e \<and> q mod 2 = 1) then q + 1 else q)
           in sgn v * int (q' * 2 ^ e))"

text \<open>
  The assignment \<^verbatim>\<open>x = double(...)\<close> converts the \<^verbatim>\<open>double\<close> to \<^verbatim>\<open>std::int32_t\<close>: the
  value is truncated towards zero (nothing to truncate for an integral value), and the
  behaviour is undefined when the \<^verbatim>\<open>std::int32_t\<close> cannot hold it.
\<close>

definition int32_of_double :: "int \<Rightarrow> 32 word outcome" where
  "int32_of_double d = (if representable 32 d then Inr (word_of_int d) else Inl Undefined)"

text \<open>
  The arithmetic of \<^verbatim>\<open>case R_ev_round\<close>:
  \<^verbatim>\<open>SLL acc = SLL(x); acc *= unsigned(shift); x = double(LL_ROUND(acc,unsigned(shift)));\<close>
  In \<^verbatim>\<open>acc *= unsigned(shift)\<close> the unsigned factor is converted to
  \<^verbatim>\<open>signed long long\<close>, which holds every 32-bit unsigned value.
\<close>

definition ev_round :: "32 word \<Rightarrow> 32 word \<Rightarrow> 32 word outcome" where
  "ev_round x shift =
     (let acc = sint x in
      and_then (signed_op 64 (acc * uint shift)) (\<lambda>acc.
      and_then (LL_ROUND acc (uint shift)) (\<lambda>rounded.
        int32_of_double (double_of_int64 rounded))))"

section \<open>The entry point \<^verbatim>\<open>MultiplyByQuantizedMultiplier\<close> and its process-wide state\<close>

datatype Rmode = R_double_round | R_ev_round

text \<open>
  What the function prints.  The line \<^verbatim>\<open>printf("mul=%d, shift=%d\n")\<close> is called without
  arguments for its two conversions, so the numbers it shows are not determined by the
  program: the model records the line and no numbers.
\<close>

datatype printed =
    Unrecognized_rounding_mode string
  | Mul_shift
  | Data string
  | X_is "32 word"

text \<open>
  The state of the process as far as the function reads or changes it: the environment,
  the two function-local statics (\<open>None\<close> until their initialiser has run), the standard
  output, and the names \<^verbatim>\<open>getenv\<close> has been called with.
\<close>

record process =
  environ :: "(string \<times> string) list"
  QR :: "Rmode option"
  show_data_bool :: "bool option"
  stdout :: "printed list"
  getenv_calls :: "string list"

definition getenv :: "string \<Rightarrow> process \<Rightarrow> string option \<times> process" where
  "getenv name p = (map_of (environ p) name, p\<lparr>getenv_calls := getenv_calls p @ [name]\<rparr>)"

definition printf :: "printed \<Rightarrow> process \<Rightarrow> process" where
  "printf line p = p\<lparr>stdout := stdout p @ [line]\<rparr>"

text \<open>The lambda \<^verbatim>\<open>tell\<close>.\<close>

definition tell :: "process \<Rightarrow> Rmode \<times> process" where
  "tell p =
     (case getenv ''TF_QUANTIZED_ROUND'' p of
        (None, p') \<Rightarrow> (R_double_round, p')
      | (Some v, p') \<Rightarrow>
          if v = ''EV'' then (R_ev_round, p')
          else (R_double_round, printf (Unrecognized_rounding_mode v) p'))"

text \<open>
  \<^verbatim>\<open>static const Rmode QR = tell();\<close> and
  \<^verbatim>\<open>static bool show_data_bool = getenv("TF_SHOW_DATA") != 0;\<close>: the initialiser runs
  the first time control passes through the declaration, and never again.
\<close>

definition static_QR :: "process \<Rightarrow> Rmode \<times> process" where
  "static_QR p =
     (case QR p of
        Some m \<Rightarrow> (m, p)
      | None \<Rightarrow> (let (m, p') = tell p in (m, p'\<lparr>QR := Some m\<rparr>)))"

definition static_show_data_bool :: "process \<Rightarrow> bool \<times> process" where
  "static_show_data_bool p =
     (case show_data_bool p of
        Some b \<Rightarrow> (b, p)
      | None \<Rightarrow>
          (let (v, p') = getenv ''TF_SHOW_DATA'' p;
               b = (v \<noteq> None)
           in (b, p'\<lparr>show_data_bool := Some b\<rparr>)))"

text \<open>The lambda \<^verbatim>\<open>show_data\<close>, which prints the current value of \<open>x\<close>.\<close>

definition show_data :: "string \<Rightarrow> 32 word \<Rightarrow> process \<Rightarrow> process" where
  "show_data when x p = printf (X_is x) (printf (Data when) p)"

text \<open>
  Both cases of the \<^verbatim>\<open>switch\<close> have the same shape: trace, compute the new \<open>x\<close>, trace.
  A failure inside the computation ends the call there.
\<close>

definition scaled ::
  "bool \<Rightarrow> 32 word \<Rightarrow> 32 word outcome \<Rightarrow> process \<Rightarrow> 32 word outcome \<times> process" where
  "scaled tracing x r p =
     (let p1 = (if tracing then show_data ''before scaling {'' x p else p)
      in case r of
           Inl e \<Rightarrow> (Inl e, p1)
         | Inr x' \<Rightarrow> (Inr x', if tracing then show_data ''after scaling }'' x' p1 else p1))"

definition MultiplyByQuantizedMultiplier ::
  "bool \<Rightarrow> process \<Rightarrow> 32 word \<Rightarrow> 32 word \<Rightarrow> 32 word \<Rightarrow> 32 word outcome \<times> process" where
  "MultiplyByQuantizedMultiplier dchecks p x mul shift =
     (let (qr, p1) = static_QR p;
          (tracing, p2) = static_show_data_bool p1;
          p3 = (if tracing then printf Mul_shift p2 else p2)
      in case qr of
           R_double_round \<Rightarrow>
             scaled tracing x (TFMultiplyByQuantizedMultiplier dchecks x mul shift) p3
         | R_ev_round \<Rightarrow>
             scaled tracing x (ev_round x shift) p3)"

section \<open>The specification's words\<close>

text \<open>
  The round-to-even shift as the specification writes it,
  \<open>round_to_even(X, s) = (X + ((X >> s) & 1) + ((1 << (s-1)) - 1)) >> s\<close>, on
  mathematical integers.
\<close>

definition round_to_even :: "int \<Rightarrow> nat \<Rightarrow> int" where
  "round_to_even X s = (X + ((X div 2 ^ s) mod 2) + (2 ^ (s - 1) - 1)) div 2 ^ s"

text \<open>
  The specification's EvenRounder: the accumulator \<open>x\<close> times \<open>shift\<close> read as an
  unsigned factor, rounded to even by \<open>shift\<close> bits, passed through double precision and
  narrowed to 32 bits.
\<close>

definition spec_EvenRounder :: "32 word \<Rightarrow> 32 word \<Rightarrow> 32 word" where
  "spec_EvenRounder x shift =
     (let acc = sint x * uint shift;
          rounded = round_to_even acc (unat shift)
      in word_of_int (double_of_int64 rounded))"

text \<open>
  The specification's BaselineRounder value before narrowing:
  \<open>(x * multiplier + (1 << (total_shift - 1))) >> total_shift\<close> with
  \<open>total_shift = 31 - shift\<close>.
\<close>

definition spec_Baseline_value :: "32 word \<Rightarrow> 32 word \<Rightarrow> 32 word \<Rightarrow> int" where
  "spec_Baseline_value x multiplier shift =
     (let total_shift = nat (31 - sint shift);
          product = sint x * sint multiplier;
          biased = product + 2 ^ (total_shift - 1)
      in biased div 2 ^ total_shift)"

text \<open>The rounder that a resolved mode dispatches to.\<close>

definition rounder :: "bool \<Rightarrow> Rmode \<Rightarrow> 32 word \<Rightarrow> 32 word \<Rightarrow> 32 word \<Rightarrow> 32 word outcome" where
  "rounder dchecks mode x mul shift =
     (case mode of
        R_double_round \<Rightarrow> TFMultiplyByQuantizedMultiplier dchecks x mul shift
      | R_ev_round \<Rightarrow> ev_round x shift)"

text \<open>
  A run of the process: calls of the entry point one after the other, each with the
  environment as it is at that moment (other code may change it between two calls), up
  to the first call that does not return.  \<open>rounds\<close> is the same run with one fixed mode
  and no state.
\<close>

type_synonym arguments = "32 word \<times> 32 word \<times> 32 word"

fun calls ::
  "bool \<Rightarrow> process \<Rightarrow> ((string \<times> string) list \<times> arguments) list \<Rightarrow>
     32 word outcome list \<times> process" where
  "calls dchecks p [] = ([], p)"
| "calls dchecks p ((env, x, mul, shift) # cs) =
     (case MultiplyByQuantizedMultiplier dchecks (p\<lparr>environ := env\<rparr>) x mul shift of
        (Inl e, p') \<Rightarrow> ([Inl e], p')
      | (Inr v, p') \<Rightarrow> (let (rs, p'') = calls dchecks p' cs in (Inr v # rs, p'')))"

fun rounds :: "bool \<Rightarrow> Rmode \<Rightarrow> arguments list \<Rightarrow> 32 word outcome list" where
  "rounds dchecks mode [] = []"
| "rounds dchecks mode ((x, mul, shift) # as) =
     (case rounder dchecks mode x mul shift of
        Inl e \<Rightarrow> [Inl e]
      | Inr v \<Rightarrow> Inr v # rounds dchecks mode as)"

text \<open>The diagnostic of an unrecognised mode among the printed lines.\<close>

fun is_unrecognized :: "printed \<Rightarrow> bool" where
  "is_unrecognized (Unrecognized_rounding_mode v) = True"
| "is_unrecognized Mul_shift = False"
| "is_unrecognized (Data when) = False"
| "is_unrecognized (X_is x) = False"

text \<open>A process that has not called the entry point yet.\<close>

definition fresh :: "(string \<times> string) list \<Rightarrow> process" where
  "fresh env = \<lparr>environ = env, QR = None, show_data_bool = None, stdout = [], getenv_calls = []\<rparr>"

section \<open>Arithmetic facts\<close>

lemma and_then_simps [simp]:
  "and_then (Inr v) f = f v" "and_then (Inl e) f = Inl e"
  by (simp_all add: and_then_def)

lemma sint32_range: "- 2147483648 \<le> sint (x :: 32 word) \<and> sint x < 2147483648"
  using sint_ge [of x] sint_lt [of x] by simp

lemma product_range:
  fixes a b :: int
  assumes "- 2147483648 \<le> a" "a < 2147483648" "- 2147483648 \<le> b" "b < 2147483648"
  shows "- 4611686018427387904 \<le> a * b \<and> a * b \<le> 4611686018427387904"
proof -
  have "\<bar>a\<bar> \<le> 2147483648" "\<bar>b\<bar> \<le> 2147483648" using assms by auto
  then have "\<bar>a\<bar> * \<bar>b\<bar> \<le> 2147483648 * 2147483648"
    by (intro mult_mono) auto
  then have "\<bar>a * b\<bar> \<le> 4611686018427387904" by (simp add: abs_mult)
  then show ?thesis by auto
qed

lemma pow2_le_62:
  assumes "k \<le> (62::nat)" shows "(2::int) ^ k \<le> 4611686018427387904"
proof -
  have "(2::int) ^ k \<le> 2 ^ 62" using assms by (intro power_increasing) auto
  then show ?thesis by simp
qed

lemma shl_one:
  assumes "0 \<le> n" "n \<le> 62"
  shows "shl 64 1 n = Inr (2 ^ nat n)"
proof -
  have "(2::int) ^ nat n \<le> 4611686018427387904"
    using assms by (intro pow2_le_62) simp
  moreover have "- 9223372036854775808 \<le> (2::int) ^ nat n"
    by (rule order_trans [of _ 0]) simp_all
  ultimately show ?thesis
    using assms by (simp add: shl_def signed_op_def representable_def)
qed

lemma TF_value:
  assumes "- 31 \<le> sint shift" "sint shift \<le> 7"
  shows "TFMultiplyByQuantizedMultiplier dchecks x m shift =
     (if dchecks \<and> \<not> representable 32 (spec_Baseline_value x m shift) then Inl Fatal
      else Inr (word_of_int (spec_Baseline_value x m shift)))"
proof -
  define s where "s = sint shift"
  have s: "- 31 \<le> s" "s \<le> 7" using assms by (simp_all add: s_def)
  have ts: "signed_op 32 (31 - s) = Inr (31 - s)" "signed_op 32 (30 - s) = Inr (30 - s)"
    using s by (simp_all add: signed_op_def representable_def)
  define P :: int where "P = 2 ^ nat (30 - s)"
  have "P \<le> 2 ^ 61" unfolding P_def using s by (intro power_increasing) auto
  then have P: "0 < P" "P \<le> 2305843009213693952" by (simp_all add: P_def)
  have round: "shl 64 1 (30 - s) = Inr P"
    using s by (simp add: shl_one P_def)
  have pr: "- 4611686018427387904 \<le> sint x * sint m \<and> sint x * sint m \<le> 4611686018427387904"
    using sint32_range [of x] sint32_range [of m] by (intro product_range) auto
  have prod: "signed_op 64 (sint x * sint m) = Inr (sint x * sint m)"
    using pr by (simp add: signed_op_def representable_def)
  have sum: "signed_op 64 (sint x * sint m + P) = Inr (sint x * sint m + P)"
    using pr P by (simp add: signed_op_def representable_def)
  have sh: "shr 64 r (31 - s) = Inr (r div 2 ^ nat (31 - s))" for r
    using s by (simp add: shr_def)
  define v where "v = (sint x * sint m + P) div 2 ^ nat (31 - s)"
  have "nat (31 - s) - 1 = nat (30 - s)" using s by simp
  then have spec: "spec_Baseline_value x m shift = v"
    by (simp add: spec_Baseline_value_def Let_def s_def [symmetric] v_def P_def)
  have "TFMultiplyByQuantizedMultiplier dchecks x m shift =
      (if dchecks \<and> \<not> representable 32 v then Inl Fatal else Inr (word_of_int v))"
    unfolding TFMultiplyByQuantizedMultiplier_def s_def [symmetric]
    using s
    by (simp add: RUY_CHECK_def RUY_DCHECK_def ts round prod sum sh Let_def
        v_def [symmetric])
      (auto simp add: representable_def)
  then show ?thesis by (simp only: spec)
qed

lemma LL_ROUND_value:
  assumes s: "1 \<le> s" "s \<le> 63"
    and X: "- 4611686018427387904 \<le> X" "X < 4611686018427387904"
  shows "LL_ROUND X s = Inr (round_to_even X (nat s))"
proof -
  define P :: int where "P = 2 ^ (nat s - 1)"
  have P: "0 < P" "P \<le> 4611686018427387904"
    using s pow2_le_62 [of "nat s - 1"] by (simp_all add: P_def)
  define b where "b = (X div 2 ^ nat s) mod 2"
  have b: "0 \<le> b" "b \<le> 1" by (simp_all add: b_def)
  have c: "(s - 1) mod 4294967296 = s - 1" using s by simp
  have n: "nat (s - 1) = nat s - 1" using s by simp
  have 1: "shr 64 Y s = Inr (Y div 2 ^ nat s)" for Y
    using s by (simp add: shr_def)
  have 2: "LLSHL1 (s - 1) = Inr P"
    using s by (simp add: LLSHL1_def shl_one n P_def)
  have 3: "signed_op 64 (P - 1) = Inr (P - 1)"
    using P by (simp add: signed_op_def representable_def)
  have 4: "signed_op 64 (X + b) = Inr (X + b)"
    using X b by (simp add: signed_op_def representable_def)
  have 5: "signed_op 64 (X + b + (P - 1)) = Inr (X + b + (P - 1))"
    using X b P by (simp add: signed_op_def representable_def)
  have "LL_ROUND X s = Inr ((X + b + (P - 1)) div 2 ^ nat s)"
    unfolding LL_ROUND_def
    by (simp add: 1 c 2 3 and_one_eq b_def [symmetric] 4 5)
  then show ?thesis by (simp add: round_to_even_def b_def P_def)
qed


lemma nat_le_pow2: "1 \<le> n \<Longrightarrow> int n \<le> 2 ^ (n - 1)"
proof -
  assume n: "1 \<le> n"
  have "n - 1 < 2 ^ (n - 1)" by (rule less_exp)
  then have "n \<le> 2 ^ (n - 1)" using n by arith
  then have "int n \<le> int (2 ^ (n - 1))" by (rule of_nat_mono)
  then show ?thesis by simp
qed

lemma round_to_even_range:
  assumes a: "- 2147483648 \<le> a" "a < 2147483648" and n: "1 \<le> n"
  shows "- 1073741824 \<le> round_to_even (a * int n) n \<and> round_to_even (a * int n) n \<le> 1073741824"
proof -
  define P :: int where "P = 2 ^ (n - 1)"
  have P: "0 < P" "int n \<le> P" using nat_le_pow2 [OF n] by (simp_all add: P_def)
  define D where "D = 2 * P"
  have D: "0 < D" using P by (simp add: D_def)
  have pow: "(2::int) ^ n = D"
    using n by (cases n) (simp_all add: P_def D_def)
  define b where "b = (a * int n div D) mod 2"
  have b: "0 \<le> b" "b \<le> 1" by (simp_all add: b_def)
  have up: "a * int n \<le> 2147483647 * P"
  proof (cases "0 \<le> a")
    case True
    then have "a * int n \<le> a * P" using P by (intro mult_left_mono) auto
    also have "\<dots> \<le> 2147483647 * P" using a P by (intro mult_right_mono) auto
    finally show ?thesis .
  next
    case False
    then have "a * int n \<le> 0" using n by (simp add: mult_le_0_iff)
    then show ?thesis using P by simp
  qed
  have lo: "- 2147483648 * P \<le> a * int n"
  proof (cases "0 \<le> a")
    case True
    then have "0 \<le> a * int n" by simp
    then show ?thesis using P by simp
  next
    case False
    have "- 2147483648 * P \<le> a * P" using a P by (intro mult_right_mono) auto
    also have "\<dots> \<le> a * int n" using False P by (intro mult_left_mono_neg) auto
    finally show ?thesis .
  qed
  have c: "k * D div D = k" for k using D by simp
  have "a * int n + b + (P - 1) \<le> 1073741824 * D" using up b by (simp add: D_def)
  then have "(a * int n + b + (P - 1)) div D \<le> 1073741824 * D div D"
    using D by (intro zdiv_mono1) auto
  then have hi: "(a * int n + b + (P - 1)) div D \<le> 1073741824" by (simp only: c)
  have "(- 1073741824) * D \<le> a * int n + b + (P - 1)" using lo b P by (simp add: D_def)
  then have "(- 1073741824) * D div D \<le> (a * int n + b + (P - 1)) div D"
    using D by (intro zdiv_mono1) auto
  then have "- 1073741824 \<le> (a * int n + b + (P - 1)) div D" by (simp only: c)
  moreover have "round_to_even (a * int n) n = (a * int n + b + (P - 1)) div D"
    by (simp only: round_to_even_def pow b_def flip: P_def)
  ultimately show ?thesis using hi by simp
qed

lemma bit_length_le: "n < 2 ^ k \<Longrightarrow> bit_length n \<le> k"
proof (induction k arbitrary: n)
  case 0
  then show ?case by (simp add: bit_length.simps)
next
  case (Suc k)
  show ?case
  proof (cases "n = 0")
    case True
    then show ?thesis by (simp add: bit_length.simps)
  next
    case False
    have "n div 2 < 2 ^ k" using Suc.prems by simp
    then have "bit_length (n div 2) \<le> k" by (rule Suc.IH)
    then show ?thesis using False by (subst bit_length.simps) simp
  qed
qed

lemma double_of_int64_exact:
  assumes "\<bar>v\<bar> < 9007199254740992"
  shows "double_of_int64 v = v"
proof -
  have "nat \<bar>v\<bar> < 2 ^ 53" using assms by simp
  then have "bit_length (nat \<bar>v\<bar>) \<le> 53" by (rule bit_length_le)
  then show ?thesis by (simp add: double_of_int64_def Let_def)
qed

lemma ev_round_value:
  assumes s: "1 \<le> uint shift" "uint shift \<le> 63"
  shows "ev_round x shift = Inr (word_of_int (round_to_even (sint x * uint shift) (unat shift)))"
proof -
  define a where "a = sint x"
  define n where "n = unat shift"
  have a: "- 2147483648 \<le> a" "a < 2147483648" using sint32_range [of x] by (simp_all add: a_def)
  have n3: "uint shift = int n" by (simp add: n_def)
  have n: "1 \<le> n" "n \<le> 63" using s n3 by simp_all
  have "\<bar>a\<bar> \<le> 2147483648" "\<bar>int n\<bar> \<le> 63" using a n by auto
  then have "\<bar>a\<bar> * \<bar>int n\<bar> \<le> 2147483648 * 63" by (intro mult_mono) auto
  then have "\<bar>a * int n\<bar> \<le> 135291469824" by (simp add: abs_mult)
  then have X: "- 135291469824 \<le> a * int n" "a * int n \<le> 135291469824" by auto
  have acc: "signed_op 64 (a * int n) = Inr (a * int n)"
    using X by (simp add: signed_op_def representable_def)
  have rnd: "LL_ROUND (a * int n) (int n) = Inr (round_to_even (a * int n) n)"
    using LL_ROUND_value [of "int n" "a * int n"] n X by simp
  have r: "- 1073741824 \<le> round_to_even (a * int n) n \<and> round_to_even (a * int n) n \<le> 1073741824"
    using a n by (intro round_to_even_range) auto
  then have d: "double_of_int64 (round_to_even (a * int n) n) = round_to_even (a * int n) n"
    by (intro double_of_int64_exact) auto
  have "and_then (signed_op 64 (a * int n)) (\<lambda>acc.
          and_then (LL_ROUND acc (int n)) (\<lambda>rounded.
            int32_of_double (double_of_int64 rounded))) =
        Inr (word_of_int (round_to_even (a * int n) n))"
    using r by (simp add: acc rnd d int32_of_double_def representable_def)
  then show ?thesis
    unfolding ev_round_def Let_def a_def [symmetric] n3 n_def [symmetric] .
qed

lemma round_to_even_tie:
  assumes s: "1 \<le> s" and tie: "X mod 2 ^ s = 2 ^ (s - 1)"
  shows "round_to_even X s = (if even (X div 2 ^ s) then X div 2 ^ s else X div 2 ^ s + 1)"
proof -
  define P :: int where "P = 2 ^ (s - 1)"
  define D where "D = 2 * P"
  have pow: "(2::int) ^ s = D" using s by (cases s) (simp_all add: P_def D_def)
  have P: "0 < P" by (simp add: P_def)
  have D: "0 < D" using P by (simp add: D_def)
  define q where "q = X div D"
  have tie': "X mod D = P" using tie by (simp only: pow flip: P_def)
  have X: "X = q * D + P"
    using div_mult_mod_eq [of X D] tie' by (simp add: q_def)
  have rte: "round_to_even X s = (X + q mod 2 + (P - 1)) div D"
    by (simp only: round_to_even_def pow q_def flip: P_def)
  show ?thesis
  proof (cases "even q")
    case True
    then have "q mod 2 = 0" by presburger
    then have "X + q mod 2 + (P - 1) = (D - 1) + q * D" using X by (simp add: D_def)
    then have "(X + q mod 2 + (P - 1)) div D = (D - 1 + q * D) div D" by (simp only:)
    also have "\<dots> = q" using D by (simp add: div_pos_pos_trivial)
    finally show ?thesis using True by (simp add: rte pow q_def)
  next
    case False
    then have "q mod 2 = 1" by presburger
    then have "X + q mod 2 + (P - 1) = (q + 1) * D" using X by (simp add: algebra_simps D_def)
    then have "(X + q mod 2 + (P - 1)) div D = (q + 1) * D div D" by (simp only:)
    also have "\<dots> = q + 1" using D by simp
    finally show ?thesis using False by (simp add: rte pow q_def)
  qed
qed

lemma half_up_tie:
  assumes t: "1 \<le> t" and tie: "p mod 2 ^ t = 2 ^ (t - 1)"
  shows "(p + 2 ^ (t - 1)) div 2 ^ t = p div 2 ^ t + (1::int)"
proof -
  define P :: int where "P = 2 ^ (t - 1)"
  define D where "D = 2 * P"
  have pow: "(2::int) ^ t = D" using t by (cases t) (simp_all add: P_def D_def)
  have D: "0 < D" by (simp add: D_def P_def)
  define q where "q = p div D"
  have tie': "p mod D = P" using tie by (simp only: pow flip: P_def)
  have X: "p = q * D + P"
    using div_mult_mod_eq [of p D] tie' by (simp add: q_def)
  have "p + P = (q + 1) * D" using X by (simp add: algebra_simps D_def)
  then have "(p + P) div D = (q + 1) * D div D" by (simp only:)
  also have "\<dots> = q + 1" using D by simp
  finally have "(p + P) div D = q + 1" .
  then show ?thesis by (simp only: pow q_def flip: P_def)
qed

section \<open>Facts about the two rounders\<close>

lemma half_bias_vanishes: "1 \<le> t \<Longrightarrow> (2::int) ^ (t - 1) div 2 ^ t = 0"
proof -
  assume "1 \<le> t"
  then have "(2::int) ^ (t - 1) < 2 ^ t" by (intro power_strict_increasing) auto
  then show ?thesis by (simp add: div_pos_pos_trivial)
qed

lemma TF_zero_multiplier:
  assumes "- 31 \<le> sint shift" "sint shift \<le> 7"
  shows "TFMultiplyByQuantizedMultiplier dchecks x 0 shift = Inr 0"
proof -
  have "1 \<le> nat (31 - sint shift)" using assms by simp
  then have "spec_Baseline_value x 0 shift = 0"
    by (simp add: spec_Baseline_value_def Let_def half_bias_vanishes)
  then show ?thesis using TF_value [OF assms, of dchecks x 0]
    by (simp add: representable_def)
qed

lemma TF_zero_accumulator:
  assumes "- 31 \<le> sint shift" "sint shift \<le> 7"
  shows "TFMultiplyByQuantizedMultiplier dchecks 0 m shift = Inr 0"
proof -
  have "1 \<le> nat (31 - sint shift)" using assms by simp
  then have "spec_Baseline_value 0 m shift = 0"
    by (simp add: spec_Baseline_value_def Let_def half_bias_vanishes)
  then show ?thesis using TF_value [OF assms, of dchecks 0 m]
    by (simp add: representable_def)
qed

lemma TF_fatal:
  assumes "sint shift < - 31 \<or> 7 < sint shift"
  shows "TFMultiplyByQuantizedMultiplier dchecks x m shift = Inl Fatal"
  using assms by (auto simp add: TFMultiplyByQuantizedMultiplier_def RUY_CHECK_def)

lemma TF_tie:
  assumes s: "- 31 \<le> sint shift" "sint shift \<le> 7"
    and tie: "(sint x * sint m) mod 2 ^ nat (31 - sint shift) = 2 ^ nat (30 - sint shift)"
  shows "spec_Baseline_value x m shift = (sint x * sint m) div 2 ^ nat (31 - sint shift) + 1"
proof -
  have n: "nat (31 - sint shift) - 1 = nat (30 - sint shift)" "1 \<le> nat (31 - sint shift)"
    using s by simp_all
  have "(sint x * sint m + 2 ^ (nat (31 - sint shift) - 1)) div 2 ^ nat (31 - sint shift) =
      (sint x * sint m) div 2 ^ nat (31 - sint shift) + 1"
    using n(2) tie unfolding n(1) [symmetric] by (rule half_up_tie)
  then show ?thesis by (simp add: spec_Baseline_value_def Let_def)
qed

lemma round_to_even_zero:
  assumes "1 \<le> n"
  shows "round_to_even 0 n = 0"
proof -
  define P :: int where "P = 2 ^ (n - 1)"
  define D :: int where "D = 2 ^ n"
  have "P < D" unfolding P_def D_def using assms by (intro power_strict_increasing) auto
  moreover have "1 \<le> P" by (simp add: P_def)
  ultimately have "(P - 1) div D = 0" by (intro div_pos_pos_trivial) auto
  then show ?thesis by (simp add: round_to_even_def P_def D_def)
qed

lemma ev_round_zero:
  assumes "1 \<le> uint shift" "uint shift \<le> 63"
  shows "ev_round 0 shift = Inr 0"
proof -
  have "int (unat shift) = uint shift" by simp
  then have "1 \<le> unat shift" using assms by linarith
  then have "round_to_even 0 (unat shift) = 0" by (rule round_to_even_zero)
  then show ?thesis using ev_round_value [OF assms, of 0] by simp
qed

lemma sint_small:
  assumes "1 \<le> sint (shift :: 32 word)" "sint shift \<le> 63"
  shows "1 \<le> uint shift \<and> uint shift \<le> 63"
proof -
  have "take_bit 32 (sint shift) = sint shift"
    using assms by (intro take_bit_int_eq_self) auto
  then have "uint shift = sint shift" using uint_sint [of shift] by simp
  then show ?thesis using assms by simp
qed

lemma spec_EvenRounder_exact:
  assumes s: "1 \<le> uint shift" "uint shift \<le> 63"
  shows "spec_EvenRounder x shift =
           word_of_int (round_to_even (sint x * uint shift) (unat shift))"
    and "representable 32 (round_to_even (sint x * uint shift) (unat shift))"
proof -
  have u: "int (unat shift) = uint shift" by simp
  then have n: "1 \<le> unat shift" using s by linarith
  have r: "- 1073741824 \<le> round_to_even (sint x * int (unat shift)) (unat shift) \<and>
        round_to_even (sint x * int (unat shift)) (unat shift) \<le> 1073741824"
    using sint32_range [of x] n by (intro round_to_even_range) auto
  then have "double_of_int64 (round_to_even (sint x * int (unat shift)) (unat shift)) =
      round_to_even (sint x * int (unat shift)) (unat shift)"
    by (intro double_of_int64_exact) auto
  then show "spec_EvenRounder x shift =
           word_of_int (round_to_even (sint x * uint shift) (unat shift))"
    by (simp add: spec_EvenRounder_def Let_def)
  show "representable 32 (round_to_even (sint x * uint shift) (unat shift))"
    using r by (simp add: representable_def)
qed

lemma sint_word_of_int_32:
  assumes "representable 32 v"
  shows "sint (word_of_int v :: 32 word) = v"
proof -
  have "signed_take_bit 31 v = v"
    using assms by (intro signed_take_bit_int_eq_self) (simp_all add: representable_def)
  then show ?thesis by (simp add: sint_sbintrunc')
qed

section \<open>Facts about the entry point and the process state\<close>

lemma scaled_fst: "fst (scaled tracing x r p) = r"
  by (cases r) (simp_all add: scaled_def Let_def)

lemma entry_result:
  "fst (MultiplyByQuantizedMultiplier dchecks p x mul shift) =
     rounder dchecks (fst (static_QR p)) x mul shift"
  by (simp add: MultiplyByQuantizedMultiplier_def rounder_def scaled_fst Let_def
      split: prod.splits Rmode.splits)

lemma static_QR_fresh:
  "fst (static_QR (fresh env)) =
     (if map_of env ''TF_QUANTIZED_ROUND'' = Some ''EV'' then R_ev_round else R_double_round)"
  by (simp add: static_QR_def fresh_def tell_def getenv_def printf_def
      split: option.splits)

lemma printf_fields [simp]:
  "environ (printf l p) = environ p"
  "QR (printf l p) = QR p"
  "show_data_bool (printf l p) = show_data_bool p"
  "getenv_calls (printf l p) = getenv_calls p"
  "stdout (printf l p) = stdout p @ [l]"
  by (simp_all add: printf_def)

lemma show_data_fields [simp]:
  "environ (show_data when x p) = environ p"
  "QR (show_data when x p) = QR p"
  "show_data_bool (show_data when x p) = show_data_bool p"
  "getenv_calls (show_data when x p) = getenv_calls p"
  "filter is_unrecognized (stdout (show_data when x p)) = filter is_unrecognized (stdout p)"
  by (simp_all add: show_data_def)

lemma scaled_fields [simp]:
  "environ (snd (scaled tracing x r p)) = environ p"
  "QR (snd (scaled tracing x r p)) = QR p"
  "show_data_bool (snd (scaled tracing x r p)) = show_data_bool p"
  "getenv_calls (snd (scaled tracing x r p)) = getenv_calls p"
  "filter is_unrecognized (stdout (snd (scaled tracing x r p))) = filter is_unrecognized (stdout p)"
  by (cases r; simp add: scaled_def Let_def)+

lemma static_QR_set: "QR p = Some m \<Longrightarrow> static_QR p = (m, p)"
  by (simp add: static_QR_def)

lemma static_QR_unset:
  assumes "QR p = None"
  shows "fst (static_QR p) =
      (if map_of (environ p) ''TF_QUANTIZED_ROUND'' = Some ''EV'' then R_ev_round
       else R_double_round)"
    and "filter is_unrecognized (stdout (snd (static_QR p))) =
      filter is_unrecognized (stdout p) @
        (case map_of (environ p) ''TF_QUANTIZED_ROUND'' of
           None \<Rightarrow> []
         | Some v \<Rightarrow> if v = ''EV'' then [] else [Unrecognized_rounding_mode v])"
    and "getenv_calls (snd (static_QR p)) = getenv_calls p @ [''TF_QUANTIZED_ROUND'']"
  using assms
  by (simp_all add: static_QR_def tell_def getenv_def split: option.splits)

lemma static_QR_fields [simp]:
  "QR (snd (static_QR p)) = Some (fst (static_QR p))"
  "show_data_bool (snd (static_QR p)) = show_data_bool p"
  "environ (snd (static_QR p)) = environ p"
  by (simp_all add: static_QR_def tell_def getenv_def split: option.splits)

lemma static_show_data_bool_set:
  "show_data_bool p = Some b \<Longrightarrow> static_show_data_bool p = (b, p)"
  by (simp add: static_show_data_bool_def)

lemma static_show_data_bool_fields [simp]:
  "show_data_bool (snd (static_show_data_bool p)) = Some (fst (static_show_data_bool p))"
  "QR (snd (static_show_data_bool p)) = QR p"
  "environ (snd (static_show_data_bool p)) = environ p"
  "stdout (snd (static_show_data_bool p)) = stdout p"
  by (simp_all add: static_show_data_bool_def getenv_def Let_def split: option.splits)

lemma entry_state:
  "snd (MultiplyByQuantizedMultiplier dchecks p x mul shift) =
     (let p2 = snd (static_show_data_bool (snd (static_QR p)));
          tracing = fst (static_show_data_bool (snd (static_QR p)));
          p3 = (if tracing then printf Mul_shift p2 else p2)
      in snd (scaled tracing x (rounder dchecks (fst (static_QR p)) x mul shift) p3))"
  by (simp add: MultiplyByQuantizedMultiplier_def rounder_def Let_def
      split: prod.splits Rmode.splits)

lemma entry_fields [simp]:
  "QR (snd (MultiplyByQuantizedMultiplier dchecks p x mul shift)) = Some (fst (static_QR p))"
  "show_data_bool (snd (MultiplyByQuantizedMultiplier dchecks p x mul shift)) =
     Some (fst (static_show_data_bool (snd (static_QR p))))"
  "environ (snd (MultiplyByQuantizedMultiplier dchecks p x mul shift)) = environ p"
  "filter is_unrecognized (stdout (snd (MultiplyByQuantizedMultiplier dchecks p x mul shift))) =
     filter is_unrecognized (stdout (snd (static_QR p)))"
  by (simp_all add: entry_state Let_def)

lemma entry_no_getenv:
  assumes "QR p = Some m" "show_data_bool p = Some b"
  shows "getenv_calls (snd (MultiplyByQuantizedMultiplier dchecks p x mul shift)) = getenv_calls p"
  using assms
  by (simp add: entry_state Let_def static_QR_set static_show_data_bool_set)

lemma baseline_shift_check:
  assumes "fst (static_QR p) = R_double_round"
  shows "sint shift < - 31 \<or> 7 < sint shift \<Longrightarrow>
      fst (MultiplyByQuantizedMultiplier dchecks p x multiplier shift) = Inl Fatal"
    and "- 31 \<le> sint shift \<Longrightarrow> sint shift \<le> 7 \<Longrightarrow>
      fst (MultiplyByQuantizedMultiplier dchecks p x multiplier shift) =
        (if dchecks \<and> \<not> representable 32 (spec_Baseline_value x multiplier shift)
         then Inl Fatal
         else Inr (word_of_int (spec_Baseline_value x multiplier shift)))"
  using assms by (simp_all add: entry_result rounder_def TF_fatal TF_value)

lemma calls_step:
  "calls dchecks p ((env, x, mul, shift) # cs) =
     (let r = MultiplyByQuantizedMultiplier dchecks (p\<lparr>environ := env\<rparr>) x mul shift
      in case fst r of
           Inl e \<Rightarrow> ([Inl e], snd r)
         | Inr v \<Rightarrow> (Inr v # fst (calls dchecks (snd r) cs), snd (calls dchecks (snd r) cs)))"
  by (simp add: Let_def split: prod.splits sum.splits)

lemma calls_resolved:
  assumes "QR p = Some m" "show_data_bool p = Some b"
  shows "fst (calls dchecks p cs) = rounds dchecks m (map snd cs) \<and>
         QR (snd (calls dchecks p cs)) = Some m \<and>
         show_data_bool (snd (calls dchecks p cs)) = Some b \<and>
         getenv_calls (snd (calls dchecks p cs)) = getenv_calls p"
  using assms
proof (induction cs arbitrary: p)
  case Nil
  then show ?case by simp
next
  case (Cons c cs)
  obtain env x mul shift where c: "c = (env, x, mul, shift)" by (cases c) auto
  define q where "q = p\<lparr>environ := env\<rparr>"
  have q: "QR q = Some m" "show_data_bool q = Some b" "getenv_calls q = getenv_calls p"
    using Cons.prems by (simp_all add: q_def)
  define r where "r = MultiplyByQuantizedMultiplier dchecks q x mul shift"
  have r1: "fst r = rounder dchecks m x mul shift"
    by (simp add: r_def entry_result static_QR_set [OF q(1)])
  have r2: "QR (snd r) = Some m" "show_data_bool (snd r) = Some b"
    by (simp_all add: r_def static_QR_set [OF q(1)] static_show_data_bool_set [OF q(2)])
  have r3: "getenv_calls (snd r) = getenv_calls p"
    using entry_no_getenv [OF q(1) q(2)] q(3) by (simp add: r_def)
  have step: "calls dchecks p (c # cs) =
      (case fst r of
         Inl e \<Rightarrow> ([Inl e], snd r)
       | Inr v \<Rightarrow> (Inr v # fst (calls dchecks (snd r) cs), snd (calls dchecks (snd r) cs)))"
    unfolding c calls_step q_def [symmetric] r_def [symmetric] Let_def ..
  show ?case
  proof (cases "fst r")
    case (Inl e)
    then show ?thesis unfolding step using r1 r2 r3 by (simp add: c)
  next
    case (Inr v)
    then show ?thesis unfolding step using Cons.IH [OF r2] r1 r3 by (simp add: c)
  qed
qed

section \<open>The single rounding shift\<close>

text \<open>
  C1 as stated: for every \<open>x\<close>, every multiplier and every shift in \<open>[-31, 7]\<close> the
  function returns the narrowing of the shifted sum.  In a debug build this fails where the
  shifted sum does not fit in 32 bits: at \<open>x = multiplier = 2^31 - 1\<close> and \<open>shift = 7\<close>
  the shifted sum is \<open>274877906688\<close>, and \<^verbatim>\<open>RUY_DCHECK_LE\<close> ends the process.
\<close>

theorem C1_counterexample:
  "TFMultiplyByQuantizedMultiplier True 2147483647 2147483647 7 = Inl Fatal"
  by (simp add: TFMultiplyByQuantizedMultiplier_def RUY_CHECK_def
      RUY_DCHECK_def signed_op_def representable_def shl_def shr_def)

text \<open>
  C1, amended.  For every 32-bit \<open>x\<close>, every multiplier and every shift in \<open>[-31, 7]\<close>, no
  operation of \<^verbatim>\<open>TFMultiplyByQuantizedMultiplier\<close> overflows or shifts out of range, and
  the function returns the 32-bit narrowing of
  \<open>(x * multiplier + 2 ^ (total_shift - 1)) >> total_shift\<close> with
  \<open>total_shift = 31 - shift\<close>, computed on 64-bit signed values; the one exception is a
  debug build with a shifted value outside the 32-bit range, where the range check on the
  result is fatal.
\<close>

theorem C1_baseline_value:
  "- 31 \<le> sint shift \<Longrightarrow> sint shift \<le> 7 \<Longrightarrow>
   TFMultiplyByQuantizedMultiplier dchecks x multiplier shift =
     (if dchecks \<and> \<not> representable 32 (spec_Baseline_value x multiplier shift) then Inl Fatal
      else Inr (word_of_int (spec_Baseline_value x multiplier shift)))"
  by (rule TF_value)

text \<open>
  C1, amended, at \<open>x = -1000\<close>, multiplier \<open>0.75 * 2^31\<close>, \<open>shift = -4\<close> (release build),
  and at the overflowing input in both builds.
\<close>

theorem C1_baseline_value_witness:
  "- 31 \<le> sint (- 4 :: 32 word) \<and> sint (- 4 :: 32 word) \<le> 7 \<and>
   TFMultiplyByQuantizedMultiplier False (- 1000) 1610612736 (- 4) = Inr (- 47) \<and>
   TFMultiplyByQuantizedMultiplier True 2147483647 2147483647 7 = Inl Fatal \<and>
   TFMultiplyByQuantizedMultiplier False 2147483647 2147483647 7 = Inr (- 256)"
  using C1_baseline_value [of "- 4" False "- 1000" 1610612736]
    C1_baseline_value [of 7 True 2147483647 2147483647]
    C1_baseline_value [of 7 False 2147483647 2147483647]
  by (simp add: spec_Baseline_value_def representable_def)

section \<open>Zero operands\<close>

text \<open>
  C8.  For every shift in \<open>[-31, 7]\<close> and every 32-bit \<open>x\<close>,
  \<open>BaselineRounder(x, 0, shift) = 0\<close>, in a release build and in a debug build.
\<close>

theorem C8_zero_multiplier:
  "- 31 \<le> sint shift \<Longrightarrow> sint shift \<le> 7 \<Longrightarrow>
   TFMultiplyByQuantizedMultiplier dchecks x 0 shift = Inr 0"
  by (rule TF_zero_multiplier)

text \<open>
  C8 at \<open>x = -2^31\<close> and \<open>shift = -31\<close>.
\<close>

theorem C8_zero_multiplier_witness:
  "- 31 \<le> sint (- 31 :: 32 word) \<and> sint (- 31 :: 32 word) \<le> 7 \<and>
   TFMultiplyByQuantizedMultiplier True (- 2147483648) 0 (- 31) = Inr 0"
  using C8_zero_multiplier [of "- 31" True "- 2147483648"] by simp

section \<open>Concrete values of the single rounding shift\<close>

text \<open>
  C9.  \<open>BaselineRounder(1000, 1<<30, 0) = 500\<close> and \<open>BaselineRounder(3, 1<<30, 0) = 2\<close>,
  in a release build and in a debug build.
\<close>

theorem C9_baseline_examples:
  "TFMultiplyByQuantizedMultiplier dchecks 1000 (push_bit 30 1) 0 = Inr 500 \<and>
   TFMultiplyByQuantizedMultiplier dchecks 3 (push_bit 30 1) 0 = Inr 2"
  by (simp add: TFMultiplyByQuantizedMultiplier_def RUY_CHECK_def
      RUY_DCHECK_def signed_op_def representable_def shl_def shr_def)

section \<open>Ties\<close>

text \<open>
  C6 as stated: on an exact tie the single rounding shift resolves upward.  At
  \<open>x = 125829120\<close>, multiplier \<open>286331153\<close> and \<open>shift = 7\<close> the product is
  \<open>(2^32 - 1) * 2^23\<close>, the exact quotient is \<open>2147483647.5\<close>, and its upper neighbour
  \<open>2^31\<close> is not a 32-bit value: a release build returns \<open>-2^31\<close>, far below the tie, and
  a debug build ends in the fatal range check.
\<close>

theorem C6_counterexample:
  "(sint (125829120 :: 32 word) * sint (286331153 :: 32 word)) mod 2 ^ nat (31 - sint (7 :: 32 word)) =
     2 ^ nat (30 - sint (7 :: 32 word)) \<and>
   (sint (125829120 :: 32 word) * sint (286331153 :: 32 word)) div 2 ^ nat (31 - sint (7 :: 32 word)) =
     2147483647 \<and>
   TFMultiplyByQuantizedMultiplier False 125829120 286331153 7 = Inr (- 2147483648) \<and>
   sint (- 2147483648 :: 32 word) = - 2147483648 \<and>
   TFMultiplyByQuantizedMultiplier True 125829120 286331153 7 = Inl Fatal"
  by (simp add: TFMultiplyByQuantizedMultiplier_def RUY_CHECK_def
      RUY_DCHECK_def signed_op_def representable_def shl_def shr_def)

text \<open>
  C6, amended.  On an exact tie (the product \<open>x * multiplier\<close> is an odd multiple of
  \<open>2 ^ (total_shift - 1)\<close>, the shift in \<open>[-31, 7]\<close>) whose upper neighbour fits in 32
  bits, the single rounding shift returns that upper neighbour, towards plus infinity, in
  both builds; where the upper neighbour does not fit, a debug build ends in the fatal
  range check and a release build returns its low 32 bits.  On an exact tie (\<open>x * shift\<close>
  is an odd multiple of \<open>2 ^ (shift - 1)\<close>, for a shift from 1 to 63) the round-to-even
  case returns the even one of the two neighbours.  The two differ on the tie \<open>0.5\<close>: the
  single rounding shift gives \<open>1\<close> for \<open>1 * 0.5\<close>, the round-to-even case gives \<open>0\<close> for
  \<open>1 / 2\<close>.
\<close>

theorem C6_tie_breaking:
  "(- 31 \<le> sint shift \<and> sint shift \<le> 7 \<and>
    (sint x * sint m) mod 2 ^ nat (31 - sint shift) = 2 ^ nat (30 - sint shift) \<and>
    representable 32 ((sint x * sint m) div 2 ^ nat (31 - sint shift) + 1) \<longrightarrow>
      TFMultiplyByQuantizedMultiplier dchecks x m shift =
        Inr (word_of_int ((sint x * sint m) div 2 ^ nat (31 - sint shift) + 1)) \<and>
      sint (word_of_int ((sint x * sint m) div 2 ^ nat (31 - sint shift) + 1) :: 32 word) =
        (sint x * sint m) div 2 ^ nat (31 - sint shift) + 1) \<and>
   (- 31 \<le> sint shift \<and> sint shift \<le> 7 \<and>
    (sint x * sint m) mod 2 ^ nat (31 - sint shift) = 2 ^ nat (30 - sint shift) \<and>
    \<not> representable 32 ((sint x * sint m) div 2 ^ nat (31 - sint shift) + 1) \<longrightarrow>
      TFMultiplyByQuantizedMultiplier dchecks x m shift =
        (if dchecks then Inl Fatal
         else Inr (word_of_int ((sint x * sint m) div 2 ^ nat (31 - sint shift) + 1)))) \<and>
   (1 \<le> uint shift' \<and> uint shift' \<le> 63 \<and>
    (sint x' * uint shift') mod 2 ^ unat shift' = 2 ^ (unat shift' - 1) \<longrightarrow>
      ev_round x' shift' =
        Inr (word_of_int
          (if even ((sint x' * uint shift') div 2 ^ unat shift')
           then (sint x' * uint shift') div 2 ^ unat shift'
           else (sint x' * uint shift') div 2 ^ unat shift' + 1)) \<and>
      sint (word_of_int
          (if even ((sint x' * uint shift') div 2 ^ unat shift')
           then (sint x' * uint shift') div 2 ^ unat shift'
           else (sint x' * uint shift') div 2 ^ unat shift' + 1) :: 32 word) =
        (if even ((sint x' * uint shift') div 2 ^ unat shift')
         then (sint x' * uint shift') div 2 ^ unat shift'
         else (sint x' * uint shift') div 2 ^ unat shift' + 1)) \<and>
   TFMultiplyByQuantizedMultiplier dchecks 1 1073741824 0 = Inr 1 \<and>
   ev_round 1 1 = Inr 0"
proof (intro conjI impI)
  assume a: "- 31 \<le> sint shift \<and> sint shift \<le> 7 \<and>
    (sint x * sint m) mod 2 ^ nat (31 - sint shift) = 2 ^ nat (30 - sint shift) \<and>
    representable 32 ((sint x * sint m) div 2 ^ nat (31 - sint shift) + 1)"
  then have "spec_Baseline_value x m shift = (sint x * sint m) div 2 ^ nat (31 - sint shift) + 1"
    by (intro TF_tie) auto
  then show "TFMultiplyByQuantizedMultiplier dchecks x m shift =
        Inr (word_of_int ((sint x * sint m) div 2 ^ nat (31 - sint shift) + 1))"
    using a TF_value [where shift = shift and dchecks = dchecks and x = x and m = m] by simp
  show "sint (word_of_int ((sint x * sint m) div 2 ^ nat (31 - sint shift) + 1) :: 32 word) =
        (sint x * sint m) div 2 ^ nat (31 - sint shift) + 1"
    using a by (intro sint_word_of_int_32) auto
next
  assume a: "- 31 \<le> sint shift \<and> sint shift \<le> 7 \<and>
    (sint x * sint m) mod 2 ^ nat (31 - sint shift) = 2 ^ nat (30 - sint shift) \<and>
    \<not> representable 32 ((sint x * sint m) div 2 ^ nat (31 - sint shift) + 1)"
  then have "spec_Baseline_value x m shift = (sint x * sint m) div 2 ^ nat (31 - sint shift) + 1"
    by (intro TF_tie) auto
  then show "TFMultiplyByQuantizedMultiplier dchecks x m shift =
        (if dchecks then Inl Fatal
         else Inr (word_of_int ((sint x * sint m) div 2 ^ nat (31 - sint shift) + 1)))"
    using a TF_value [where shift = shift and dchecks = dchecks and x = x and m = m] by simp
next
  assume a: "1 \<le> uint shift' \<and> uint shift' \<le> 63 \<and>
    (sint x' * uint shift') mod 2 ^ unat shift' = 2 ^ (unat shift' - 1)"
  have "int (unat shift') = uint shift'" by simp
  then have "1 \<le> unat shift'" using a by linarith
  then have r: "round_to_even (sint x' * uint shift') (unat shift') =
      (if even ((sint x' * uint shift') div 2 ^ unat shift')
       then (sint x' * uint shift') div 2 ^ unat shift'
       else (sint x' * uint shift') div 2 ^ unat shift' + 1)"
    using a by (intro round_to_even_tie) auto
  then show "ev_round x' shift' =
        Inr (word_of_int
          (if even ((sint x' * uint shift') div 2 ^ unat shift')
           then (sint x' * uint shift') div 2 ^ unat shift'
           else (sint x' * uint shift') div 2 ^ unat shift' + 1))"
    using a ev_round_value [where shift = shift' and x = x'] by simp
  have "representable 32 (round_to_even (sint x' * uint shift') (unat shift'))"
    using a by (intro spec_EvenRounder_exact(2)) auto
  then have "sint (word_of_int (round_to_even (sint x' * uint shift') (unat shift')) :: 32 word) =
      round_to_even (sint x' * uint shift') (unat shift')"
    by (rule sint_word_of_int_32)
  then show "sint (word_of_int
          (if even ((sint x' * uint shift') div 2 ^ unat shift')
           then (sint x' * uint shift') div 2 ^ unat shift'
           else (sint x' * uint shift') div 2 ^ unat shift' + 1) :: 32 word) =
        (if even ((sint x' * uint shift') div 2 ^ unat shift')
         then (sint x' * uint shift') div 2 ^ unat shift'
         else (sint x' * uint shift') div 2 ^ unat shift' + 1)"
    by (simp only: r)
next
  show "TFMultiplyByQuantizedMultiplier dchecks 1 1073741824 0 = Inr 1"
    using TF_value [where shift = 0 and dchecks = dchecks and x = 1 and m = 1073741824]
    by (simp add: spec_Baseline_value_def representable_def)
next
  show "ev_round 1 1 = Inr 0"
    using ev_round_value [where shift = 1 and x = 1] by (simp add: round_to_even_def)
qed

text \<open>
  C6, amended, on ties: the single rounding shift gives \<open>3\<close> for \<open>2.5\<close> and \<open>1\<close> for
  \<open>0.5\<close>, and a debug build is fatal on \<open>2147483647.5\<close>; the round-to-even case gives
  \<open>2\<close> for \<open>2.5\<close> and \<open>0\<close> for \<open>0.5\<close>.
\<close>

theorem C6_tie_breaking_witness:
  "- 31 \<le> sint (0 :: 32 word) \<and> sint (0 :: 32 word) \<le> 7 \<and>
   (sint (5 :: 32 word) * sint (1073741824 :: 32 word)) mod 2 ^ nat (31 - sint (0 :: 32 word)) =
     2 ^ nat (30 - sint (0 :: 32 word)) \<and>
   representable 32
     ((sint (5 :: 32 word) * sint (1073741824 :: 32 word)) div 2 ^ nat (31 - sint (0 :: 32 word)) + 1) \<and>
   TFMultiplyByQuantizedMultiplier True 5 1073741824 0 = Inr 3 \<and>
   sint (3 :: 32 word) = 3 \<and>
   - 31 \<le> sint (7 :: 32 word) \<and> sint (7 :: 32 word) \<le> 7 \<and>
   (sint (125829120 :: 32 word) * sint (286331153 :: 32 word)) mod 2 ^ nat (31 - sint (7 :: 32 word)) =
     2 ^ nat (30 - sint (7 :: 32 word)) \<and>
   \<not> representable 32
     ((sint (125829120 :: 32 word) * sint (286331153 :: 32 word)) div
        2 ^ nat (31 - sint (7 :: 32 word)) + 1) \<and>
   TFMultiplyByQuantizedMultiplier True 125829120 286331153 7 = Inl Fatal \<and>
   1 \<le> uint (1 :: 32 word) \<and> uint (1 :: 32 word) \<le> 63 \<and>
   (sint (5 :: 32 word) * uint (1 :: 32 word)) mod 2 ^ unat (1 :: 32 word) =
     2 ^ (unat (1 :: 32 word) - 1) \<and>
   ev_round 5 1 = Inr 2 \<and>
   TFMultiplyByQuantizedMultiplier True 1 1073741824 0 = Inr 1 \<and>
   ev_round 1 1 = Inr 0"
  using C6_tie_breaking [where shift = 0 and x = 5 and m = 1073741824 and shift' = 1 and x' = 5
      and dchecks = True]
    C6_tie_breaking [where shift = 7 and x = 125829120 and m = 286331153 and shift' = 1
      and x' = 5 and dchecks = True]
  by (simp add: representable_def)

section \<open>The round-to-even case\<close>




section \<open>The multiplier in the round-to-even case\<close>

text \<open>
  C4.  In EvenRound mode the result of the entry point does not depend on the multiplier:
  for every \<open>x\<close>, every shift and every two multipliers \<open>m1\<close> and \<open>m2\<close> the two calls
  have the same outcome.
\<close>

theorem C4_multiplier_unused:
  "fst (static_QR p) = R_ev_round \<Longrightarrow>
   fst (MultiplyByQuantizedMultiplier dchecks p x m1 shift) =
   fst (MultiplyByQuantizedMultiplier dchecks p x m2 shift)"
  by (simp add: entry_result rounder_def)

text \<open>
  C4 at \<open>x = 100\<close>, \<open>shift = 2\<close>, with the multipliers \<open>0\<close> and \<open>2^31 - 1\<close>.
\<close>

theorem C4_multiplier_unused_witness:
  "fst (static_QR (fresh [(''TF_QUANTIZED_ROUND'', ''EV'')])) = R_ev_round \<and>
   fst (MultiplyByQuantizedMultiplier False (fresh [(''TF_QUANTIZED_ROUND'', ''EV'')]) 100 0 2) =
   fst (MultiplyByQuantizedMultiplier False (fresh [(''TF_QUANTIZED_ROUND'', ''EV'')])
      100 2147483647 2)"
  using C4_multiplier_unused [of "fresh [(''TF_QUANTIZED_ROUND'', ''EV'')]" False 100 0 2 2147483647]
  by (simp add: static_QR_fresh)

section \<open>A zero accumulator\<close>

text \<open>
  C10.  A zero accumulator rounds to zero for every multiplier: in Baseline mode for every
  shift in \<open>[-31, 7]\<close>, and in EvenRound mode for every shift in \<open>[1, 7]\<close>.
\<close>

theorem C10_zero_accumulator:
  "(fst (static_QR p) = R_double_round \<and> - 31 \<le> sint shift \<and> sint shift \<le> 7 \<longrightarrow>
      fst (MultiplyByQuantizedMultiplier dchecks p 0 multiplier shift) = Inr 0) \<and>
   (fst (static_QR p) = R_ev_round \<and> 1 \<le> sint shift \<and> sint shift \<le> 7 \<longrightarrow>
      fst (MultiplyByQuantizedMultiplier dchecks p 0 multiplier shift) = Inr 0)"
proof (intro conjI impI)
  assume "fst (static_QR p) = R_double_round \<and> - 31 \<le> sint shift \<and> sint shift \<le> 7"
  then show "fst (MultiplyByQuantizedMultiplier dchecks p 0 multiplier shift) = Inr 0"
    by (simp add: entry_result rounder_def TF_zero_accumulator)
next
  assume a: "fst (static_QR p) = R_ev_round \<and> 1 \<le> sint shift \<and> sint shift \<le> 7"
  then have "1 \<le> uint shift \<and> uint shift \<le> 63" by (intro sint_small) auto
  then show "fst (MultiplyByQuantizedMultiplier dchecks p 0 multiplier shift) = Inr 0"
    using a by (simp add: entry_result rounder_def ev_round_zero)
qed

text \<open>
  C10 in Baseline mode at \<open>shift = -31\<close> and in EvenRound mode at \<open>shift = 7\<close>, with the
  multiplier \<open>2^31 - 1\<close>.
\<close>

theorem C10_zero_accumulator_witness:
  "fst (static_QR (fresh [])) = R_double_round \<and> - 31 \<le> sint (- 31 :: 32 word) \<and>
   sint (- 31 :: 32 word) \<le> 7 \<and>
   fst (MultiplyByQuantizedMultiplier True (fresh []) 0 2147483647 (- 31)) = Inr 0 \<and>
   fst (static_QR (fresh [(''TF_QUANTIZED_ROUND'', ''EV'')])) = R_ev_round \<and>
   1 \<le> sint (7 :: 32 word) \<and> sint (7 :: 32 word) \<le> 7 \<and>
   fst (MultiplyByQuantizedMultiplier True (fresh [(''TF_QUANTIZED_ROUND'', ''EV'')])
      0 2147483647 7) = Inr 0"
  using C10_zero_accumulator [of "fresh []" "- 31" True 2147483647]
    C10_zero_accumulator [of "fresh [(''TF_QUANTIZED_ROUND'', ''EV'')]" 7 True 2147483647]
  by (simp add: static_QR_fresh)

section \<open>The precondition on the shift\<close>

text \<open>
  C3.  The precondition \<open>shift\<close> in \<open>[-31, 7]\<close> is documented above
  \<^verbatim>\<open>TFMultiplyByQuantizedMultiplier\<close> and checked there with \<^verbatim>\<open>RUY_CHECK_GE\<close> and
  \<^verbatim>\<open>RUY_CHECK_LE\<close>, but \<^verbatim>\<open>case R_ev_round\<close> of the entry point never reaches that
  check and has none of its own.  With \<open>x = 256\<close> and \<open>shift = 8\<close> the call returns \<open>8\<close>
  in EvenRound mode, where the same call in Baseline mode ends in the fatal check.
\<close>

theorem C3_even_round_unchecked:
  "fst (MultiplyByQuantizedMultiplier False (fresh [(''TF_QUANTIZED_ROUND'', ''EV'')]) 256 0 8) =
     Inr 8 \<and>
   fst (MultiplyByQuantizedMultiplier False (fresh []) 256 0 8) = Inl Fatal"
  by (simp add: entry_result static_QR_fresh rounder_def ev_round_value round_to_even_def TF_fatal)

section \<open>Resolving the mode\<close>

text \<open>
  C5 as stated: an empty configuration value selects Baseline mode with no diagnostic.  The
  initialiser only tests the value for absence: with \<^verbatim>\<open>TF_QUANTIZED_ROUND\<close> set to the
  empty string, the first call prints the diagnostic for an unrecognised mode.
\<close>

theorem C5_counterexample:
  "stdout (snd (MultiplyByQuantizedMultiplier False (fresh [(''TF_QUANTIZED_ROUND'', '''')]) 0 0 0)) =
     [Unrecognized_rounding_mode '''']"
  by (simp add: MultiplyByQuantizedMultiplier_def static_QR_def static_show_data_bool_def
      tell_def getenv_def fresh_def printf_def scaled_def TF_zero_multiplier)

text \<open>
  C5, amended.  On first use (the static \<open>QR\<close> not yet initialised) the value \<open>EV\<close> of
  \<^verbatim>\<open>TF_QUANTIZED_ROUND\<close> selects EvenRound mode with no diagnostic, an absent variable
  selects Baseline mode with no diagnostic, and every other value, the empty string
  included, selects Baseline mode and prints one diagnostic naming the value; the call is
  rounded in the selected mode.  Once the mode is resolved, a call prints no diagnostic.
\<close>

theorem C5_mode_selection:
  "(QR p = None \<longrightarrow>
      QR (snd (MultiplyByQuantizedMultiplier dchecks p x mul shift)) =
        Some (if map_of (environ p) ''TF_QUANTIZED_ROUND'' = Some ''EV'' then R_ev_round
              else R_double_round) \<and>
      fst (MultiplyByQuantizedMultiplier dchecks p x mul shift) =
        rounder dchecks
          (if map_of (environ p) ''TF_QUANTIZED_ROUND'' = Some ''EV'' then R_ev_round
           else R_double_round) x mul shift \<and>
      filter is_unrecognized (stdout (snd (MultiplyByQuantizedMultiplier dchecks p x mul shift))) =
        filter is_unrecognized (stdout p) @
          (case map_of (environ p) ''TF_QUANTIZED_ROUND'' of
             None \<Rightarrow> []
           | Some v \<Rightarrow> if v = ''EV'' then [] else [Unrecognized_rounding_mode v])) \<and>
   (QR p \<noteq> None \<longrightarrow>
      filter is_unrecognized (stdout (snd (MultiplyByQuantizedMultiplier dchecks p x mul shift))) =
        filter is_unrecognized (stdout p))"
proof (intro conjI impI)
  assume a: "QR p = None"
  show "QR (snd (MultiplyByQuantizedMultiplier dchecks p x mul shift)) =
        Some (if map_of (environ p) ''TF_QUANTIZED_ROUND'' = Some ''EV'' then R_ev_round
              else R_double_round)"
    by (simp add: static_QR_unset(1) [OF a])
  show "fst (MultiplyByQuantizedMultiplier dchecks p x mul shift) =
        rounder dchecks
          (if map_of (environ p) ''TF_QUANTIZED_ROUND'' = Some ''EV'' then R_ev_round
           else R_double_round) x mul shift"
    by (simp only: entry_result static_QR_unset(1) [OF a])
  show "filter is_unrecognized (stdout (snd (MultiplyByQuantizedMultiplier dchecks p x mul shift))) =
        filter is_unrecognized (stdout p) @
          (case map_of (environ p) ''TF_QUANTIZED_ROUND'' of
             None \<Rightarrow> []
           | Some v \<Rightarrow> if v = ''EV'' then [] else [Unrecognized_rounding_mode v])"
    by (simp only: entry_fields static_QR_unset(2) [OF a])
next
  assume "QR p \<noteq> None"
  then obtain m where "QR p = Some m" by auto
  then show "filter is_unrecognized
        (stdout (snd (MultiplyByQuantizedMultiplier dchecks p x mul shift))) =
        filter is_unrecognized (stdout p)"
    by (simp add: static_QR_set)
qed

text \<open>
  C5, amended, for a first call with the value \<open>fast\<close>, and for a call of a process whose
  mode is already resolved.
\<close>

theorem C5_mode_selection_witness:
  "QR (fresh [(''TF_QUANTIZED_ROUND'', ''fast'')]) = None \<and>
   QR (snd (MultiplyByQuantizedMultiplier False (fresh [(''TF_QUANTIZED_ROUND'', ''fast'')])
      3 1073741824 0)) = Some R_double_round \<and>
   fst (MultiplyByQuantizedMultiplier False (fresh [(''TF_QUANTIZED_ROUND'', ''fast'')])
      3 1073741824 0) = Inr 2 \<and>
   filter is_unrecognized
     (stdout (snd (MultiplyByQuantizedMultiplier False (fresh [(''TF_QUANTIZED_ROUND'', ''fast'')])
        3 1073741824 0))) = [Unrecognized_rounding_mode ''fast''] \<and>
   QR \<lparr>environ = [(''TF_QUANTIZED_ROUND'', ''fast'')], QR = Some R_ev_round,
       show_data_bool = Some False, stdout = [], getenv_calls = []\<rparr> \<noteq> None \<and>
   filter is_unrecognized
     (stdout (snd (MultiplyByQuantizedMultiplier False
        \<lparr>environ = [(''TF_QUANTIZED_ROUND'', ''fast'')], QR = Some R_ev_round,
           show_data_bool = Some False, stdout = [], getenv_calls = []\<rparr>
        3 1073741824 0))) = []"
  using C5_mode_selection [where p = "fresh [(''TF_QUANTIZED_ROUND'', ''fast'')]"
      and dchecks = False and x = 3 and mul = 1073741824 and shift = 0]
    C5_mode_selection [where p = "\<lparr>environ = [(''TF_QUANTIZED_ROUND'', ''fast'')],
      QR = Some R_ev_round, show_data_bool = Some False, stdout = [], getenv_calls = []\<rparr>"
      and dchecks = False and x = 3 and mul = 1073741824 and shift = 0]
    TF_value [where shift = 0 and dchecks = False and x = 3 and m = 1073741824]
  by (simp add: fresh_def rounder_def spec_Baseline_value_def)

section \<open>The mode is resolved once\<close>

text \<open>
  C7.  After a first call of the entry point the mode is resolved, and in every run of
  further calls, whatever the environment is at each of them, every call is rounded in
  that same mode, the static keeps its value and \<^verbatim>\<open>getenv\<close> is not called again.  The
  first call itself reads \<^verbatim>\<open>TF_QUANTIZED_ROUND\<close> at most once.
\<close>

theorem C7_mode_memoized:
  "QR (snd (MultiplyByQuantizedMultiplier dchecks p x mul shift)) = Some (fst (static_QR p)) \<and>
   fst (calls dchecks (snd (MultiplyByQuantizedMultiplier dchecks p x mul shift)) cs) =
     rounds dchecks (fst (static_QR p)) (map snd cs) \<and>
   QR (snd (calls dchecks (snd (MultiplyByQuantizedMultiplier dchecks p x mul shift)) cs)) =
     Some (fst (static_QR p)) \<and>
   getenv_calls (snd (calls dchecks (snd (MultiplyByQuantizedMultiplier dchecks p x mul shift)) cs)) =
     getenv_calls (snd (MultiplyByQuantizedMultiplier dchecks p x mul shift)) \<and>
   length (filter ((=) ''TF_QUANTIZED_ROUND'')
     (getenv_calls (snd (MultiplyByQuantizedMultiplier dchecks p x mul shift)))) \<le>
   length (filter ((=) ''TF_QUANTIZED_ROUND'') (getenv_calls p)) + 1"
proof -
  define p1 where "p1 = snd (MultiplyByQuantizedMultiplier dchecks p x mul shift)"
  have 1: "QR p1 = Some (fst (static_QR p))" by (simp add: p1_def)
  have 2: "show_data_bool p1 = Some (fst (static_show_data_bool (snd (static_QR p))))"
    by (simp add: p1_def)
  note 3 = calls_resolved [OF 1 2, of dchecks cs]
  have a: "filter ((=) ''TF_QUANTIZED_ROUND'') (getenv_calls (snd (static_show_data_bool q))) =
        filter ((=) ''TF_QUANTIZED_ROUND'') (getenv_calls q)" for q
    by (simp add: static_show_data_bool_def getenv_def Let_def split: option.splits)
  have "getenv_calls (snd (static_QR p)) = getenv_calls p \<or>
        getenv_calls (snd (static_QR p)) = getenv_calls p @ [''TF_QUANTIZED_ROUND'']"
    by (simp add: static_QR_def tell_def getenv_def split: option.splits)
  then have b: "length (filter ((=) ''TF_QUANTIZED_ROUND'') (getenv_calls (snd (static_QR p)))) \<le>
      length (filter ((=) ''TF_QUANTIZED_ROUND'') (getenv_calls p)) + 1"
    by auto
  have "getenv_calls p1 = getenv_calls (snd (static_show_data_bool (snd (static_QR p))))"
    by (simp add: p1_def entry_state Let_def)
  then have 4: "length (filter ((=) ''TF_QUANTIZED_ROUND'') (getenv_calls p1)) \<le>
      length (filter ((=) ''TF_QUANTIZED_ROUND'') (getenv_calls p)) + 1"
    using a b by simp
  show ?thesis using 1 3 4 unfolding p1_def by simp
qed

text \<open>
  C7 for a process started with \<^verbatim>\<open>TF_QUANTIZED_ROUND=EV\<close>: after the first call the
  variable is removed, then set to another value; both later calls still round to even
  (\<open>3 / 2\<close> and \<open>5 / 2\<close> both give \<open>2\<close>), and \<^verbatim>\<open>getenv\<close> has been called twice in all,
  once for each static.
\<close>

theorem C7_mode_memoized_witness:
  "QR (snd (MultiplyByQuantizedMultiplier False (fresh [(''TF_QUANTIZED_ROUND'', ''EV'')]) 1 0 1)) =
     Some R_ev_round \<and>
   fst (calls False
     (snd (MultiplyByQuantizedMultiplier False (fresh [(''TF_QUANTIZED_ROUND'', ''EV'')]) 1 0 1))
     [([], 3, 1073741824, 1), ([(''TF_QUANTIZED_ROUND'', ''other'')], 5, 1073741824, 1)]) =
     [Inr 2, Inr 2] \<and>
   getenv_calls (snd (calls False
     (snd (MultiplyByQuantizedMultiplier False (fresh [(''TF_QUANTIZED_ROUND'', ''EV'')]) 1 0 1))
     [([], 3, 1073741824, 1), ([(''TF_QUANTIZED_ROUND'', ''other'')], 5, 1073741824, 1)])) =
     [''TF_QUANTIZED_ROUND'', ''TF_SHOW_DATA'']"
proof -
  have g: "getenv_calls
      (snd (MultiplyByQuantizedMultiplier False (fresh [(''TF_QUANTIZED_ROUND'', ''EV'')]) 1 0 1)) =
      [''TF_QUANTIZED_ROUND'', ''TF_SHOW_DATA'']"
    by (simp add: entry_state Let_def static_QR_def static_show_data_bool_def tell_def
        getenv_def fresh_def)
  show ?thesis
    using C7_mode_memoized [where dchecks = False
        and p = "fresh [(''TF_QUANTIZED_ROUND'', ''EV'')]" and x = 1 and mul = 0 and shift = 1
        and cs = "[([], 3, 1073741824, 1), ([(''TF_QUANTIZED_ROUND'', ''other'')], 5, 1073741824, 1)]"]
    by (simp add: g static_QR_fresh rounder_def ev_round_value round_to_even_def)
qed

end
